theory Spec2Isabelle
  imports Complex_Main "HOL-Library.Word"
begin

section \<open>The icon padding script\<close>

text \<open>
  A shallow embedding of \<^verbatim>\<open>scripts/add-icon-padding.py\<close>: the function
  \<^verbatim>\<open>add_transparent_padding\<close> and the command-line entry point under
  \<^verbatim>\<open>if __name__ == "__main__"\<close>.

  The script is glue around the Python runtime and the Pillow imaging library. Their
  operations are modelled here as far as the script calls them:
  \<^item> Python \<^verbatim>\<open>float\<close> values are IEEE binary64 numbers. A finite one is its exact
    rational value, the two infinities and NaN are separate constructors; the sign of
    zero is not kept (nothing in the script can observe it).
  \<^item> An image is its size and its RGBA pixels, 8 bits per channel. Pixels are read
    through a function of the coordinates; only coordinates inside the canvas are
    meaningful.
  \<^item> The resampling filter of \<^verbatim>\<open>Image.resize\<close> (Lanczos, floating point inside
    Pillow) is a parameter \<open>K\<close> of the model: a theorem holds for every filter, and
    says so in a hypothesis where it needs a property of the filter.
  \<^item> The file system maps a path to what \<^verbatim>\<open>Image.open(p).convert("RGBA")\<close> yields
    for it. Standard output is the list of printed lines, with non-ASCII characters as
    their UTF-8 bytes.
  Memory limits of the library and the encoding of the terminal are not modelled.
\<close>

subsection \<open>Exceptions and process termination\<close>

datatype py_error =
  FileNotFoundError | UnidentifiedImageError | ValueError | OverflowError | OSError

text \<open>
  How the process ends: \<^verbatim>\<open>sys.exit(n)\<close> or falling off the end of the script
  (\<open>Exit\<close>), or an exception that nothing catches (\<open>Uncaught\<close>), for which the
  interpreter prints a traceback and exits with status 1.
\<close>

datatype outcome = Exit int | Uncaught py_error

fun exit_status :: "outcome \<Rightarrow> int" where
  "exit_status (Exit n) = n"
| "exit_status (Uncaught e) = 1"

subsection \<open>Python floats\<close>

datatype pyfloat = Fin rat | PInf | NInf | NaN

text \<open>Round to nearest integer, ties to even.\<close>

definition round_half_even :: "rat \<Rightarrow> int" where
  "round_half_even x =
     (let f = \<lfloor>x\<rfloor>; d = x - of_int f
      in if d < 1 / 2 then f else if 1 / 2 < d then f + 1 else if even f then f else f + 1)"

text \<open>\<^verbatim>\<open>int.bit_length\<close>: the number of binary digits of a natural number.\<close>

fun bit_length :: "nat \<Rightarrow> nat" where
  "bit_length n = (if n = 0 then 0 else Suc (bit_length (n div 2)))"

declare bit_length.simps [simp del]

text \<open>The binary exponent of a positive rational: \<open>\<lfloor>log\<^sub>2 x\<rfloor>\<close>.\<close>

definition ilog2 :: "rat \<Rightarrow> int" where
  "ilog2 x =
     (if 1 \<le> x then int (bit_length (nat \<lfloor>x\<rfloor>)) - 1
      else - int (bit_length (nat (\<lceil>1 / x\<rceil> - 1))))"

text \<open>
  Rounding of an exact value to binary64, round-to-nearest-even: 53 significant bits,
  the unit in the last place never below \<open>2\<^sup>-\<^sup>1\<^sup>0\<^sup>7\<^sup>4\<close> (subnormals), and overflow to an
  infinity when the rounded magnitude reaches \<open>2\<^sup>1\<^sup>0\<^sup>2\<^sup>4\<close>, that is when the rounded
  significand \<open>m\<close> at exponent \<open>e\<close> has \<open>e > 971\<close>, or \<open>e = 971\<close> and \<open>\<bar>m\<bar> = 2\<^sup>5\<^sup>3\<close>.
\<close>

definition round_double :: "rat \<Rightarrow> pyfloat" where
  "round_double x =
     (if x = 0 then Fin 0
      else let e = max (ilog2 \<bar>x\<bar> - 52) (- 1074);
               m = round_half_even (x / 2 powi e)
           in if 971 < e \<or> (e = 971 \<and> 2 ^ 53 \<le> \<bar>m\<bar>)
              then (if 0 < x then PInf else NInf)
              else Fin (of_int m * 2 powi e))"

text \<open>
  \<^verbatim>\<open>float(n)\<close> for an integer, as the mixed product \<^verbatim>\<open>n * x\<close> applies it to its
  integer operand: correctly rounded, \<^verbatim>\<open>OverflowError\<close> when out of range.
\<close>

definition float_of_int :: "int \<Rightarrow> py_error + pyfloat" where
  "float_of_int n =
     (case round_double (of_int n) of
        PInf \<Rightarrow> Inl OverflowError
      | NInf \<Rightarrow> Inl OverflowError
      | f \<Rightarrow> Inr f)"

text \<open>The product of two floats.\<close>

fun float_mul :: "pyfloat \<Rightarrow> pyfloat \<Rightarrow> pyfloat" where
  "float_mul (Fin a) (Fin b) = round_double (a * b)"
| "float_mul NaN _ = NaN"
| "float_mul _ NaN = NaN"
| "float_mul (Fin a) PInf = (if a = 0 then NaN else if 0 < a then PInf else NInf)"
| "float_mul (Fin a) NInf = (if a = 0 then NaN else if 0 < a then NInf else PInf)"
| "float_mul PInf (Fin b) = (if b = 0 then NaN else if 0 < b then PInf else NInf)"
| "float_mul NInf (Fin b) = (if b = 0 then NaN else if 0 < b then NInf else PInf)"
| "float_mul PInf PInf = PInf"
| "float_mul PInf NInf = NInf"
| "float_mul NInf PInf = NInf"
| "float_mul NInf NInf = PInf"

text \<open>
  \<^verbatim>\<open>int(x)\<close> for a float: the fractional part is discarded (truncation towards
  zero); NaN raises \<^verbatim>\<open>ValueError\<close>, an infinity \<^verbatim>\<open>OverflowError\<close>.
\<close>

fun py_int :: "pyfloat \<Rightarrow> py_error + int" where
  "py_int (Fin q) = Inr (if q < 0 then - \<lfloor>- q\<rfloor> else \<lfloor>q\<rfloor>)"
| "py_int NaN = Inl ValueError"
| "py_int PInf = Inl OverflowError"
| "py_int NInf = Inl OverflowError"

text \<open>The literal \<^verbatim>\<open>0.88\<close> (lines 12 and 56).\<close>

definition default_content_percent :: pyfloat where
  "default_content_percent = round_double (88 / 100)"

subsection \<open>Strings: \<^verbatim>\<open>float(s)\<close> and \<^verbatim>\<open>str(n)\<close>\<close>

text \<open>
  \<^verbatim>\<open>float(s)\<close> on an ASCII string: surrounding white space is dropped, single
  underscores between digits are dropped, then the text must be, after an optional
  sign, \<^verbatim>\<open>inf\<close>, \<^verbatim>\<open>infinity\<close> or \<^verbatim>\<open>nan\<close> in any case, or a decimal number with
  an optional exponent. The value is correctly rounded. Anything else raises
  \<^verbatim>\<open>ValueError\<close>.
\<close>

definition is_space :: "char \<Rightarrow> bool" where
  "is_space c = (c \<in> set [CHR 0x09, CHR 0x0A, CHR 0x0B, CHR 0x0C, CHR 0x0D, CHR 0x20])"

definition is_digit :: "char \<Rightarrow> bool" where
  "is_digit c = (c \<in> set ''0123456789'')"

definition digit_value :: "char \<Rightarrow> nat" where
  "digit_value c = of_char c - 48"

definition nat_of_digits :: "string \<Rightarrow> nat" where
  "nat_of_digits ds = foldl (\<lambda>n c. 10 * n + digit_value c) 0 ds"

definition lower :: "char \<Rightarrow> char" where
  "lower c =
     (if (65::nat) \<le> of_char c \<and> of_char c \<le> (90::nat)
      then char_of (of_char c + (32::nat)) else c)"

definition strip :: "string \<Rightarrow> string" where
  "strip s = rev (dropWhile is_space (rev (dropWhile is_space s)))"

text \<open>
  An underscore is accepted only directly after a digit and directly before one;
  \<open>prev\<close> is the character just read.
\<close>

fun strip_underscores :: "char \<Rightarrow> string \<Rightarrow> string option" where
  "strip_underscores prev [] = (if prev = CHR ''_'' then None else Some [])"
| "strip_underscores prev (c # cs) =
     (if c = CHR ''_''
      then (if is_digit prev then strip_underscores c cs else None)
      else if prev = CHR ''_'' \<and> \<not> is_digit c then None
      else map_option ((#) c) (strip_underscores c cs))"

text \<open>An optional sign: whether it is a minus, and the rest.\<close>

fun split_sign :: "string \<Rightarrow> bool \<times> string" where
  "split_sign [] = (False, [])"
| "split_sign (c # cs) =
     (if c = CHR ''-'' then (True, cs)
      else if c = CHR ''+'' then (False, cs)
      else (False, c # cs))"

text \<open>
  An unsigned decimal number: digits with an optional point (at least one digit before
  or after it), then an optional exponent \<^verbatim>\<open>e\<close> or \<^verbatim>\<open>E\<close> with optional sign and at
  least one digit. The whole text must be consumed.
\<close>

definition parse_decimal :: "string \<Rightarrow> rat option" where
  "parse_decimal s =
     (let ip = takeWhile is_digit s;
          r1 = dropWhile is_digit s;
          (fp, r2) =
            (case r1 of
               [] \<Rightarrow> ([], [])
             | c # cs \<Rightarrow>
                 if c = CHR ''.'' then (takeWhile is_digit cs, dropWhile is_digit cs)
                 else ([], r1));
          mant = (of_nat (nat_of_digits (ip @ fp)) :: rat) / 10 ^ length fp
      in if ip = [] \<and> fp = [] then None
         else (case r2 of
                 [] \<Rightarrow> Some mant
               | c # cs \<Rightarrow>
                   if c = CHR ''e'' \<or> c = CHR ''E''
                   then (let (neg, r3) = split_sign cs;
                             ed = takeWhile is_digit r3;
                             ex = int (nat_of_digits ed)
                         in if ed = [] \<or> dropWhile is_digit r3 \<noteq> [] then None
                            else Some (mant * 10 powi (if neg then - ex else ex)))
                   else None))"

definition py_float :: "string \<Rightarrow> py_error + pyfloat" where
  "py_float s =
     (case strip_underscores (CHR 0x00) (strip s) of
        None \<Rightarrow> Inl ValueError
      | Some u \<Rightarrow>
          (let (neg, v) = split_sign u; l = map lower v
           in if l = ''inf'' \<or> l = ''infinity'' then Inr (if neg then NInf else PInf)
              else if l = ''nan'' then Inr NaN
              else (case parse_decimal v of
                      None \<Rightarrow> Inl ValueError
                    | Some q \<Rightarrow> Inr (round_double (if neg then - q else q)))))"

text \<open>\<^verbatim>\<open>str(n)\<close> for an integer, as an f-string formats it.\<close>

fun str_nat :: "nat \<Rightarrow> string" where
  "str_nat n =
     (if n < 10 then [''0123456789'' ! n]
      else str_nat (n div 10) @ [''0123456789'' ! (n mod 10)])"

declare str_nat.simps [simp del]

definition str_int :: "int \<Rightarrow> string" where
  "str_int n = (if n < 0 then ''-'' @ str_nat (nat (- n)) else str_nat (nat n))"

subsection \<open>Images\<close>

text \<open>An RGBA pixel: red, green, blue, alpha; alpha 0 is fully transparent.\<close>

type_synonym pixel = "8 word \<times> 8 word \<times> 8 word \<times> 8 word"

fun alpha_of :: "pixel \<Rightarrow> 8 word" where
  "alpha_of (r, g, b, a) = a"

record image =
  width :: int
  height :: int
  pix :: "int \<Rightarrow> int \<Rightarrow> pixel"

text \<open>
  The resampling filter: the pixel at \<open>(x, y)\<close> of the image resized to the given size.
\<close>

type_synonym resampler = "image \<Rightarrow> int \<times> int \<Rightarrow> int \<Rightarrow> int \<Rightarrow> pixel"

text \<open>\<^verbatim>\<open>Image.new('RGBA', sz, color)\<close>: every pixel is \<open>color\<close>.\<close>

definition Image_new :: "int \<times> int \<Rightarrow> pixel \<Rightarrow> image" where
  "Image_new sz color = \<lparr>width = fst sz, height = snd sz, pix = (\<lambda>x y. color)\<rparr>"

text \<open>The range of a C \<^verbatim>\<open>int\<close>, which the library's entry points take sizes in.\<close>

definition c_int :: "int \<Rightarrow> bool" where
  "c_int n = (- (2 ^ 31) \<le> n \<and> n < 2 ^ 31)"

text \<open>
  \<^verbatim>\<open>img.resize(sz, Image.LANCZOS)\<close>. A request for the image's own size returns a
  copy. Otherwise a size outside the C \<^verbatim>\<open>int\<close> range raises \<^verbatim>\<open>OverflowError\<close>, a
  size below 1 raises \<^verbatim>\<open>ValueError\<close> (``height and width must be > 0''), and else
  the result has the requested size and the pixels the filter computes.
\<close>

definition resize :: "resampler \<Rightarrow> image \<Rightarrow> int \<times> int \<Rightarrow> py_error + image" where
  "resize K img sz =
     (if (width img, height img) = sz then Inr img
      else if \<not> c_int (fst sz) \<or> \<not> c_int (snd sz) then Inl OverflowError
      else if fst sz < 1 \<or> snd sz < 1 then Inl ValueError
      else Inr \<lparr>width = fst sz, height = snd sz, pix = K img sz\<rparr>)"

text \<open>
  The blend of the library's paste under a mask, per channel, as its C macros compute
  it: \<^verbatim>\<open>DIV255(a) = (tmp = a + 128, ((tmp >> 8) + tmp) >> 8)\<close> and
  \<^verbatim>\<open>BLEND8(mask, in1, in2) = DIV255(in1 * (255 - mask) + in2 * mask)\<close>. The
  intermediate values stay below \<open>2\<^sup>1\<^sup>7\<close>, so nothing wraps.
\<close>

definition DIV255 :: "nat \<Rightarrow> nat" where
  "DIV255 a = (let tmp = a + 128 in (tmp div 256 + tmp) div 256)"

definition BLEND8 :: "8 word \<Rightarrow> 8 word \<Rightarrow> 8 word \<Rightarrow> 8 word" where
  "BLEND8 msk in1 in2 = of_nat (DIV255 (unat in1 * (255 - unat msk) + unat in2 * unat msk))"

fun blend_pixel :: "8 word \<Rightarrow> pixel \<Rightarrow> pixel \<Rightarrow> pixel" where
  "blend_pixel msk (r1, g1, b1, a1) (r2, g2, b2, a2) =
     (BLEND8 msk r1 r2, BLEND8 msk g1 g2, BLEND8 msk b1 b2, BLEND8 msk a1 a2)"

text \<open>
  \<^verbatim>\<open>out.paste(im, (x, y), mask)\<close> with an RGBA mask: the box is the size of \<open>im\<close> at
  \<open>(x, y)\<close>, clipped to the canvas of \<open>out\<close>; inside it every pixel of \<open>out\<close> is
  blended with the pixel of \<open>im\<close> under the alpha of the pixel of \<open>mask\<close>. A mask of
  another size than \<open>im\<close> raises \<^verbatim>\<open>ValueError\<close>.
\<close>

definition paste :: "image \<Rightarrow> image \<Rightarrow> int \<times> int \<Rightarrow> image \<Rightarrow> py_error + image" where
  "paste out im box msk =
     (if (width msk, height msk) \<noteq> (width im, height im) then Inl ValueError
      else Inr (out\<lparr>pix :=
        (\<lambda>x y.
           if 0 \<le> x \<and> x < width out \<and> 0 \<le> y \<and> y < height out
              \<and> fst box \<le> x \<and> x < fst box + width im
              \<and> snd box \<le> y \<and> y < snd box + height im
           then blend_pixel (alpha_of (pix msk (x - fst box) (y - snd box)))
                  (pix out x y) (pix im (x - fst box) (y - snd box))
           else pix out x y)\<rparr>))"

subsection \<open>Files and standard output\<close>

text \<open>
  A file either decodes to a raster (given here as the RGBA image that
  \<^verbatim>\<open>Image.open(p).convert("RGBA")\<close> yields) or does not.
\<close>

datatype file_content = Raster image | Undecodable

record world =
  files :: "string \<rightharpoonup> file_content"
  unwritable :: "string set"
  stdout :: "string list"

definition print :: "string \<Rightarrow> world \<Rightarrow> world" where
  "print line w = w\<lparr>stdout := stdout w @ [line]\<rparr>"

text \<open>
  \<^verbatim>\<open>Image.open(path).convert("RGBA")\<close>: a missing file raises
  \<^verbatim>\<open>FileNotFoundError\<close>; a file that is no image, or one whose header gives a size
  below 1, is not identified.
\<close>

definition Image_open :: "world \<Rightarrow> string \<Rightarrow> py_error + image" where
  "Image_open w path =
     (case files w path of
        None \<Rightarrow> Inl FileNotFoundError
      | Some Undecodable \<Rightarrow> Inl UnidentifiedImageError
      | Some (Raster img) \<Rightarrow>
          if width img < 1 \<or> height img < 1 then Inl UnidentifiedImageError else Inr img)"

text \<open>
  \<^verbatim>\<open>result.save(path, 'PNG')\<close>: the file at \<open>path\<close> becomes the image (PNG stores
  8-bit RGBA without loss); a path that cannot be written raises \<^verbatim>\<open>OSError\<close>.
\<close>

definition save :: "image \<Rightarrow> string \<Rightarrow> world \<Rightarrow> py_error + world" where
  "save img path w =
     (if path \<in> unwritable w then Inl OSError
      else Inr (w\<lparr>files := (files w)(path \<mapsto> Raster img)\<rparr>))"

subsection \<open>\<^verbatim>\<open>add_transparent_padding\<close>\<close>

text \<open>Line 28: \<^verbatim>\<open>new_size = int(min(width, height) * content_percent)\<close>.\<close>

definition new_size :: "int \<Rightarrow> int \<Rightarrow> pyfloat \<Rightarrow> py_error + int" where
  "new_size w h content_percent =
     (case float_of_int (min w h) of
        Inl e \<Rightarrow> Inl e
      | Inr m \<Rightarrow> py_int (float_mul m content_percent))"

text \<open>Line 39: \<^verbatim>\<open>offset = (width - new_size) // 2\<close>.\<close>

definition offset :: "int \<Rightarrow> int \<Rightarrow> int" where
  "offset w ns = (w - ns) div 2"

text \<open>The lines the function prints (lines 25, 33, 44, 45, 46).\<close>

definition msg_original :: "int \<Rightarrow> int \<Rightarrow> string" where
  "msg_original w h =
     [CHR 0xF0, CHR 0x9F, CHR 0x93, CHR 0x90] @ '' Original size: '' @ str_int w @ ''x'' @ str_int h"

definition msg_content :: "int \<Rightarrow> int \<Rightarrow> string" where
  "msg_content ns pct =
     [CHR 0xF0, CHR 0x9F, CHR 0x93, CHR 0xA6] @ '' Content size: '' @ str_int ns @ ''x''
       @ str_int ns @ '' ('' @ str_int pct @ ''% of canvas)''"

definition msg_saved :: "string \<Rightarrow> string" where
  "msg_saved path =
     [CHR 0xE2, CHR 0x9C, CHR 0x85] @ '' Saved icon with transparent padding: '' @ path"

definition msg_margins :: "int \<Rightarrow> string" where
  "msg_margins off =
     [CHR 0xF0, CHR 0x9F, CHR 0x8E, CHR 0xAF] @ '' Transparent margins: '' @ str_int off
       @ ''px on each side''"

definition msg_keep :: string where
  "msg_keep =
     [CHR 0xE2, CHR 0x9A, CHR 0xA0, CHR 0xEF, CHR 0xB8, CHR 0x8F]
       @ ''  Keep this transparent! macOS needs it for rounded corners''"

text \<open>
  The function, lines 22 to 46. It returns the exception it raised, or nothing, and the
  world it leaves: lines printed before an exception stay printed.
\<close>

definition add_transparent_padding ::
  "resampler \<Rightarrow> string \<Rightarrow> string \<Rightarrow> pyfloat \<Rightarrow> world \<Rightarrow> (py_error + unit) \<times> world"
where
  "add_transparent_padding K input_path output_path content_percent w =
     (case Image_open w input_path of
        Inl e \<Rightarrow> (Inl e, w)
      | Inr img \<Rightarrow>
          (let w1 = print (msg_original (width img) (height img)) w
           in case new_size (width img) (height img) content_percent of
                Inl e \<Rightarrow> (Inl e, w1)
              | Inr ns \<Rightarrow>
                  (case resize K img (ns, ns) of
                     Inl e \<Rightarrow> (Inl e, w1)
                   | Inr img_resized \<Rightarrow>
                       (case py_int (float_mul content_percent (Fin 100)) of
                          Inl e \<Rightarrow> (Inl e, w1)
                        | Inr pct \<Rightarrow>
                            (let w2 = print (msg_content ns pct) w1;
                                 result = Image_new (width img, height img) (0, 0, 0, 0);
                                 off = offset (width img) ns
                             in case paste result img_resized (off, off) img_resized of
                                  Inl e \<Rightarrow> (Inl e, w2)
                                | Inr result' \<Rightarrow>
                                    (case save result' output_path w2 of
                                       Inl e \<Rightarrow> (Inl e, w2)
                                     | Inr w3 \<Rightarrow>
                                         (Inr (),
                                          print msg_keep
                                            (print (msg_margins off)
                                               (print (msg_saved output_path) w3)))))))))"

subsection \<open>The command line\<close>

definition usage_lines :: "string list" where
  "usage_lines =
     [''Usage: python3 add-icon-padding.py input.png output.png [content_percent]'',
      ''Example: python3 add-icon-padding.py icon.png icon-padded.png 0.88'']"

text \<open>
  Lines 48 to 58; \<open>argv\<close> is \<^verbatim>\<open>sys.argv\<close>, the script's name first. An exception of
  the float conversion or of the function is not caught.
\<close>

definition main :: "resampler \<Rightarrow> string list \<Rightarrow> world \<Rightarrow> outcome \<times> world" where
  "main K argv w =
     (if length argv < 3
      then (Exit 1, print (usage_lines ! 1) (print (usage_lines ! 0) w))
      else
        (let input_file = argv ! 1;
             output_file = argv ! 2
         in case (if 3 < length argv then py_float (argv ! 3)
                  else Inr default_content_percent) of
              Inl e \<Rightarrow> (Uncaught e, w)
            | Inr content \<Rightarrow>
                (case add_transparent_padding K input_file output_file content w of
                   (Inl e, w') \<Rightarrow> (Uncaught e, w')
                 | (Inr u, w') \<Rightarrow> (Exit 0, w'))))"

subsection \<open>The specification's content size\<close>


subsection \<open>Sample data\<close>

text \<open>
  A nearest-neighbour filter, to run the model on examples: it is one possible value of
  the parameter \<open>K\<close>, not the library's Lanczos filter.
\<close>

definition nearest :: resampler where
  "nearest img sz x y = pix img (x * width img div fst sz) (y * height img div snd sz)"

text \<open>A 4 by 4 icon: the two left columns fully transparent, the rest opaque red.\<close>

definition sample_icon :: image where
  "sample_icon =
     \<lparr>width = 4, height = 4,
      pix = (\<lambda>x y. if x < 2 then (0, 0, 0, 0) else (255, 0, 0, 255))\<rparr>"

definition sample_world :: world where
  "sample_world =
     \<lparr>files = [''icon.png'' \<mapsto> Raster sample_icon], unwritable = {}, stdout = []\<rparr>"

text \<open>The 1024 by 1024 fully opaque red square.\<close>

definition red_square :: image where
  "red_square = \<lparr>width = 1024, height = 1024, pix = (\<lambda>x y. (255, 0, 0, 255))\<rparr>"

text \<open>A world that holds it as \<^verbatim>\<open>icon.png\<close>.\<close>

definition red_world :: world where
  "red_world = \<lparr>files = [''icon.png'' \<mapsto> Raster red_square], unwritable = {}, stdout = []\<rparr>"

section \<open>Properties\<close>

subsection \<open>Auxiliary facts\<close>

lemma files_print [simp]: "files (print l w) = files w"
  by (simp add: print_def)

lemma unwritable_print [simp]: "unwritable (print l w) = unwritable w"
  by (simp add: print_def)

lemma Image_open_Inr:
  "Image_open w p = Inr img \<longleftrightarrow>
     files w p = Some (Raster img) \<and> 1 \<le> width img \<and> 1 \<le> height img"
  by (auto simp: Image_open_def split: option.splits file_content.splits)

lemma resize_Inr_size:
  "resize K img (a, b) = Inr rz \<Longrightarrow> width rz = a \<and> height rz = b"
  by (auto simp: resize_def split: if_splits)

text \<open>What a run that raises nothing has done.\<close>

lemma atp_Inr:
  assumes "add_transparent_padding K ip op c w = (Inr u, w')"
  shows "\<exists>img ns rz pct out.
     Image_open w ip = Inr img \<and>
     new_size (width img) (height img) c = Inr ns \<and>
     resize K img (ns, ns) = Inr rz \<and>
     py_int (float_mul c (Fin 100)) = Inr pct \<and>
     paste (Image_new (width img, height img) (0, 0, 0, 0)) rz
       (offset (width img) ns, offset (width img) ns) rz = Inr out \<and>
     op \<notin> unwritable w \<and>
     files w' = (files w)(op \<mapsto> Raster out)"
  using assms unfolding add_transparent_padding_def
  by (auto simp: Let_def save_def split: sum.splits if_splits)

text \<open>The blend at the two ends of the mask: 0 keeps the canvas, 255 takes the source.\<close>

lemma DIV255_255: "n < 256 \<Longrightarrow> DIV255 (n * 255) = n"
proof -
  assume n: "n < 256"
  show ?thesis
  proof (cases "n \<le> 128")
    case True
    have 1: "(n * 255 + 128) div 256 = n"
      by (rule div_nat_eqI) (use True in simp_all)
    have 2: "(n + (n * 255 + 128)) div 256 = n"
      by (rule div_nat_eqI) simp_all
    show ?thesis unfolding DIV255_def Let_def 1 2 ..
  next
    case False
    have 1: "(n * 255 + 128) div 256 = n - 1"
      by (rule div_nat_eqI) (use False n in simp_all)
    have 2: "(n - 1 + (n * 255 + 128)) div 256 = n"
      by (rule div_nat_eqI) (use False in arith)+
    show ?thesis unfolding DIV255_def Let_def 1 2 ..
  qed
qed

lemma BLEND8_0: "BLEND8 0 a b = a"
proof -
  have "unat a < 256" using unsigned_less [of a, where ?'a = nat] by simp
  then show ?thesis by (simp add: BLEND8_def DIV255_255)
qed

lemma BLEND8_255: "BLEND8 255 a b = b"
proof -
  have "unat b < 256" using unsigned_less [of b, where ?'a = nat] by simp
  then show ?thesis by (simp add: BLEND8_def DIV255_255)
qed

lemma blend_pixel_0: "blend_pixel 0 p q = p"
  by (cases p; cases q) (simp add: BLEND8_0)

lemma blend_pixel_255: "blend_pixel 255 p q = q"
  by (cases p; cases q) (simp add: BLEND8_255)

text \<open>The sample run: the 4 by 4 icon at half size.\<close>

lemma new_size_sample: "new_size 4 4 (Fin (1 / 2)) = Inr 2"
  by code_simp

lemma percent_sample: "py_int (float_mul (Fin (1 / 2)) (Fin 100)) = Inr 50"
  by code_simp

lemma Image_open_sample: "Image_open sample_world ''icon.png'' = Inr sample_icon"
  by (simp add: Image_open_def sample_world_def sample_icon_def)

lemma resize_sample:
  "resize K sample_icon (2, 2) = Inr \<lparr>width = 2, height = 2, pix = K sample_icon (2, 2)\<rparr>"
  by (simp add: resize_def sample_icon_def c_int_def)

lemma sample_run:
  "fst (add_transparent_padding K ''icon.png'' ''out.png'' (Fin (1 / 2)) sample_world) = Inr ()"
proof -
  have w: "width sample_icon = 4" "height sample_icon = 4"
    by (simp_all add: sample_icon_def)
  have u: "''out.png'' \<notin> unwritable sample_world"
    by (simp add: sample_world_def)
  show ?thesis
    unfolding add_transparent_padding_def Image_open_sample
    by (simp add: w new_size_sample resize_sample percent_sample paste_def save_def u Let_def
          del: float_mul.simps py_int.simps)
qed

text \<open>The pixels of a paste onto the fresh transparent canvas.\<close>

lemma paste_canvas:
  assumes "paste (Image_new (W, H) (0, 0, 0, 0)) rz (off, off) rz = Inr out"
  shows "width out = W" and "height out = H"
    and "pix out x y =
           (if 0 \<le> x \<and> x < W \<and> 0 \<le> y \<and> y < H
               \<and> off \<le> x \<and> x < off + width rz \<and> off \<le> y \<and> y < off + height rz
            then blend_pixel (alpha_of (pix rz (x - off) (y - off))) (0, 0, 0, 0)
                   (pix rz (x - off) (y - off))
            else (0, 0, 0, 0))"
  using assms by (auto simp: paste_def Image_new_def)

text \<open>A successful run, in terms of the input image.\<close>

lemma atp_Inr_img:
  assumes "files w ip = Some (Raster img)"
    and "add_transparent_padding K ip op c w = (Inr u, w')"
  shows "\<exists>ns rz out.
     new_size (width img) (height img) c = Inr ns \<and>
     resize K img (ns, ns) = Inr rz \<and> width rz = ns \<and> height rz = ns \<and>
     paste (Image_new (width img, height img) (0, 0, 0, 0)) rz
       (offset (width img) ns, offset (width img) ns) rz = Inr out \<and>
     files w' op = Some (Raster out)"
proof -
  from atp_Inr [OF assms(2)] obtain img' ns rz out where
    o: "Image_open w ip = Inr img'"
    and n: "new_size (width img') (height img') c = Inr ns"
    and r: "resize K img' (ns, ns) = Inr rz"
    and p: "paste (Image_new (width img', height img') (0, 0, 0, 0)) rz
              (offset (width img') ns, offset (width img') ns) rz = Inr out"
    and f: "files w' = (files w)(op \<mapsto> Raster out)"
    by blast
  from o assms(1) have "img' = img" by (simp add: Image_open_Inr)
  with n r p f resize_Inr_size [OF r] show ?thesis by auto
qed
text \<open>The function never changes which paths can be written.\<close>

lemma atp_unwritable:
  "unwritable (snd (add_transparent_padding K ip op c w)) = unwritable w"
  unfolding add_transparent_padding_def
  by (auto simp: Let_def save_def split: sum.splits)

text \<open>The default percentage on the 1024 by 1024 square.\<close>

lemma new_size_default_1024: "new_size 1024 1024 default_content_percent = Inr 901"
  by code_simp

lemma percent_default: "py_int (float_mul default_content_percent (Fin 100)) = Inr 88"
  by code_simp

lemma resize_red_square:
  "resize K red_square (901, 901) =
     Inr \<lparr>width = 901, height = 901, pix = K red_square (901, 901)\<rparr>"
  by (simp add: resize_def red_square_def c_int_def)

text \<open>The binary exponent brackets its argument.\<close>

lemma bit_length_bounds:
  "0 < n \<Longrightarrow> 2 ^ (bit_length n - 1) \<le> n \<and> n < 2 ^ bit_length n"
proof (induction n rule: bit_length.induct)
  case (1 n)
  show ?case
  proof (cases "n = 1")
    case True
    then show ?thesis by (simp add: bit_length.simps)
  next
    case False
    with "1.prems" have h: "0 < n div 2" by simp
    let ?b = "bit_length (n div 2)"
    from "1.IH" "1.prems" h have ih: "2 ^ (?b - 1) \<le> n div 2" "n div 2 < 2 ^ ?b"
      by simp_all
    from h have pos: "0 < ?b" by (simp add: bit_length.simps)
    then have "(2::nat) ^ ?b = 2 * 2 ^ (?b - 1)"
      by (cases ?b) simp_all
    with ih(1) have lo: "2 ^ ?b \<le> n" by simp
    from ih(2) have hi: "n < 2 * 2 ^ ?b" by simp
    from "1.prems" have "bit_length n = Suc ?b" by (simp add: bit_length.simps)
    with lo hi show ?thesis by simp
  qed
qed

lemma ilog2_bounds:
  assumes "0 < x"
  shows "2 powi (ilog2 x) \<le> x \<and> x < 2 powi (ilog2 x + 1)"
proof (cases "1 \<le> x")
  case True
  define n where "n = nat \<lfloor>x\<rfloor>"
  define b where "b = bit_length n"
  from True have n: "0 < n" "of_nat n \<le> x" "x < of_nat n + 1"
    unfolding n_def by (simp_all add: of_nat_nat) linarith+
  from bit_length_bounds [OF n(1)] have bb: "2 ^ (b - 1) \<le> n" "n < 2 ^ b"
    by (simp_all add: b_def)
  from n(1) have bpos: "0 < b" by (simp add: b_def bit_length.simps)
  have e: "ilog2 x = int b - 1" using True by (simp add: ilog2_def n_def b_def)
  have 1: "(2::rat) powi (int b - 1) = 2 ^ (b - 1)"
    using bpos by (cases b) simp_all
  have 2: "(2::rat) powi (int b - 1 + 1) = 2 ^ b"
    by simp
  from bb(1) have "(of_nat (2 ^ (b - 1)) :: rat) \<le> of_nat n"
    by (simp only: of_nat_le_iff)
  then have "(2::rat) ^ (b - 1) \<le> of_nat n"
    by simp
  with n(2) have lo: "(2::rat) ^ (b - 1) \<le> x" by linarith
  from bb(2) have "n + 1 \<le> 2 ^ b" by simp
  then have "(of_nat (n + 1) :: rat) \<le> of_nat (2 ^ b)"
    by (simp only: of_nat_le_iff)
  then have "(of_nat n :: rat) + 1 \<le> 2 ^ b"
    by simp
  with n(3) have hi: "x < 2 ^ b" by linarith
  from lo hi show ?thesis by (simp only: e 1 2)
next
  case False
  define y where "y = 1 / x"
  define n where "n = nat (\<lceil>y\<rceil> - 1)"
  define b where "b = bit_length n"
  from False assms have y: "1 < y" by (simp add: y_def)
  then have c: "2 \<le> \<lceil>y\<rceil>" by linarith
  then have n: "0 < n" "of_nat n < y" "y \<le> of_nat n + 1"
    unfolding n_def by (simp_all add: of_nat_nat) linarith+
  from bit_length_bounds [OF n(1)] have bb: "2 ^ (b - 1) \<le> n" "n < 2 ^ b"
    by (simp_all add: b_def)
  from n(1) have bpos: "0 < b" by (simp add: b_def bit_length.simps)
  have e: "ilog2 x = - int b" using False by (simp add: ilog2_def n_def b_def y_def)
  have x: "x = 1 / y" using assms by (simp add: y_def)
  have 1: "(2::rat) powi (- int b) = 1 / 2 ^ b"
    by (simp add: power_int_minus inverse_eq_divide)
  have 2: "(2::rat) powi (- int b + 1) = 1 / 2 ^ (b - 1)"
    using bpos by (cases b) (simp_all add: power_int_minus inverse_eq_divide)
  from bb(1) have "(of_nat (2 ^ (b - 1)) :: rat) \<le> of_nat n"
    by (simp only: of_nat_le_iff)
  then have "(2::rat) ^ (b - 1) \<le> of_nat n"
    by simp
  with n(2) have lo: "(2::rat) ^ (b - 1) < y" by linarith
  from bb(2) have "n + 1 \<le> 2 ^ b" by simp
  then have "(of_nat (n + 1) :: rat) \<le> of_nat (2 ^ b)"
    by (simp only: of_nat_le_iff)
  then have "(of_nat n :: rat) + 1 \<le> 2 ^ b"
    by simp
  with n(3) have hi: "y \<le> 2 ^ b" by linarith
  from y hi have "1 / 2 ^ b \<le> 1 / y"
    by (simp add: frac_le)
  then have l: "1 / 2 ^ b \<le> x"
    by (simp only: x)
  from y lo have "1 / y < 1 / 2 ^ (b - 1)"
    by (simp add: frac_less2)
  then have u: "x < 1 / 2 ^ (b - 1)"
    by (simp only: x)
  from l u show ?thesis by (simp only: e 1 2)
qed

text \<open>
  Rounding goes to a multiple of the unit in the last place that is nearest to the
  exact value.
\<close>

lemma round_half_even_error: "\<bar>of_int (round_half_even y) - y\<bar> \<le> 1 / 2"
proof -
  have "of_int \<lfloor>y\<rfloor> \<le> y" "y < of_int \<lfloor>y\<rfloor> + 1"
    by linarith+
  then show ?thesis
    unfolding round_half_even_def Let_def by (auto simp: abs_le_iff)
qed

lemma round_double_nearest:
  assumes "round_double x = Fin r" and "x \<noteq> 0"
  shows "\<exists>m. r = of_int m * 2 powi (max (ilog2 \<bar>x\<bar> - 52) (- 1074))
           \<and> \<bar>r - x\<bar> \<le> 2 powi (max (ilog2 \<bar>x\<bar> - 52) (- 1074)) / 2"
proof -
  define p :: rat where "p = 2 powi (max (ilog2 \<bar>x\<bar> - 52) (- 1074))"
  define m where "m = round_half_even (x / p)"
  have pos: "0 < p" by (simp add: p_def zero_less_power_int)
  from assms have r: "r = of_int m * p"
    by (simp add: round_double_def Let_def p_def m_def split: if_splits)
  have "\<bar>of_int m - x / p\<bar> \<le> 1 / 2"
    unfolding m_def by (rule round_half_even_error)
  with pos have "\<bar>of_int m - x / p\<bar> * p \<le> 1 / 2 * p"
    by (simp only: mult_le_cancel_right_pos)
  moreover have "\<bar>of_int m - x / p\<bar> * p = \<bar>of_int m * p - x\<bar>"
  proof -
    from pos have "\<bar>of_int m - x / p\<bar> * p = \<bar>(of_int m - x / p) * p\<bar>"
      by (simp add: abs_mult)
    also from pos have "(of_int m - x / p) * p = of_int m * p - x"
      by (simp add: left_diff_distrib)
    finally show ?thesis .
  qed
  ultimately have "\<bar>r - x\<bar> \<le> p / 2"
    by (simp add: r)
  with r show ?thesis
    unfolding p_def by blast
qed




subsection \<open>The output image\<close>

text \<open>
  C1. Whenever a run raises nothing, every pixel of the written image that lies outside
  the square \<open>[offset, offset + new_size) \<times> [offset, offset + new_size)\<close> has alpha 0.
\<close>

theorem margin_transparent:
  assumes "files w ip = Some (Raster img)"
    and "add_transparent_padding K ip op c w = (Inr u, w')"
  shows "\<exists>ns out.
     new_size (width img) (height img) c = Inr ns \<and> files w' op = Some (Raster out) \<and>
     (\<forall>x y. 0 \<le> x \<and> x < width out \<and> 0 \<le> y \<and> y < height out \<and>
        \<not> (offset (width img) ns \<le> x \<and> x < offset (width img) ns + ns \<and>
           offset (width img) ns \<le> y \<and> y < offset (width img) ns + ns)
        \<longrightarrow> alpha_of (pix out x y) = 0)"
proof -
  from atp_Inr_img [OF assms] obtain ns rz out where
    n: "new_size (width img) (height img) c = Inr ns"
    and s: "width rz = ns" "height rz = ns"
    and p: "paste (Image_new (width img, height img) (0, 0, 0, 0)) rz
              (offset (width img) ns, offset (width img) ns) rz = Inr out"
    and f: "files w' op = Some (Raster out)"
    by blast
  have "alpha_of (pix out x y) = 0"
    if "\<not> (offset (width img) ns \<le> x \<and> x < offset (width img) ns + ns \<and>
           offset (width img) ns \<le> y \<and> y < offset (width img) ns + ns)" for x y
    using that by (auto simp: paste_canvas(3) [OF p] s)
  with n f show ?thesis by blast
qed

theorem margin_transparent_witness:
  "files sample_world ''icon.png'' = Some (Raster sample_icon)
   \<and> fst (add_transparent_padding nearest ''icon.png'' ''out.png'' (Fin (1 / 2)) sample_world) = Inr ()
   \<and> new_size 4 4 (Fin (1 / 2)) = Inr 2
   \<and> offset 4 2 = 1
   \<and> (\<exists>out. files (snd (add_transparent_padding nearest ''icon.png'' ''out.png'' (Fin (1 / 2))
                          sample_world)) ''out.png'' = Some (Raster out)
          \<and> alpha_of (pix out 0 0) = 0 \<and> alpha_of (pix out 3 1) = 0
          \<and> alpha_of (pix out 2 3) = 0)"
proof -
  let ?r = "add_transparent_padding nearest ''icon.png'' ''out.png'' (Fin (1 / 2)) sample_world"
  have f: "files sample_world ''icon.png'' = Some (Raster sample_icon)"
    by (simp add: sample_world_def)
  have r: "?r = (Inr (), snd ?r)"
    using sample_run [of nearest] by (simp add: prod_eq_iff)
  have o: "offset 4 2 = 1"
    by (simp add: offset_def)
  have w: "width sample_icon = 4" "height sample_icon = 4"
    by (simp_all add: sample_icon_def)
  from margin_transparent [OF f r] obtain out where
    out: "files (snd ?r) ''out.png'' = Some (Raster out)"
    and m: "\<And>x y. 0 \<le> x \<and> x < width out \<and> 0 \<le> y \<and> y < height out \<and>
        \<not> (1 \<le> x \<and> x < 3 \<and> 1 \<le> y \<and> y < 3) \<Longrightarrow> alpha_of (pix out x y) = 0"
    by (auto simp: w new_size_sample o)
  from atp_Inr_img [OF f r] out have d: "width out = 4" "height out = 4"
    by (auto simp: w new_size_sample dest: paste_canvas(1,2))
  have "alpha_of (pix out 0 0) = 0" "alpha_of (pix out 3 1) = 0" "alpha_of (pix out 2 3) = 0"
    by (rule m, simp add: d)+
  with f sample_run [of nearest] new_size_sample o out show ?thesis by simp
qed

text \<open>
  C2. Whenever a run raises nothing, the file written at the output path is an image of
  exactly the width and the height of the input image.
\<close>

theorem dimensions_preserved:
  assumes "files w ip = Some (Raster img)"
    and "add_transparent_padding K ip op c w = (Inr u, w')"
  shows "\<exists>out. files w' op = Some (Raster out)
           \<and> width out = width img \<and> height out = height img"
proof -
  from atp_Inr [OF assms(2)] obtain img' ns rz out where
    o: "Image_open w ip = Inr img'"
    and p: "paste (Image_new (width img', height img') (0, 0, 0, 0)) rz
              (offset (width img') ns, offset (width img') ns) rz = Inr out"
    and f: "files w' = (files w)(op \<mapsto> Raster out)"
    by blast
  from o assms(1) have "img' = img" by (simp add: Image_open_Inr)
  with p have "width out = width img \<and> height out = height img"
    by (auto simp: paste_def Image_new_def)
  with f show ?thesis by simp
qed

theorem dimensions_preserved_witness:
  "files sample_world ''icon.png'' = Some (Raster sample_icon)
   \<and> fst (add_transparent_padding nearest ''icon.png'' ''out.png'' (Fin (1 / 2)) sample_world) = Inr ()
   \<and> (\<exists>out. files (snd (add_transparent_padding nearest ''icon.png'' ''out.png'' (Fin (1 / 2))
                          sample_world)) ''out.png'' = Some (Raster out)
          \<and> width out = 4 \<and> height out = 4)"
proof -
  let ?r = "add_transparent_padding nearest ''icon.png'' ''out.png'' (Fin (1 / 2)) sample_world"
  have f: "files sample_world ''icon.png'' = Some (Raster sample_icon)"
    by (simp add: sample_world_def)
  have r: "?r = (Inr (), snd ?r)"
    using sample_run [of nearest] by (simp add: prod_eq_iff)
  from dimensions_preserved [OF f r] f sample_run [of nearest] show ?thesis
    by (simp add: sample_icon_def)
qed

text \<open>
  C4. Whenever a run raises nothing, the written image is the transparent canvas with
  the resized image pasted at \<open>(offset, offset)\<close>, the same value on both axes, where
  \<open>offset = \<lfloor>(width - new_size) / 2\<rfloor>\<close> is taken from the width of the input image
  (not from the smaller of width and height).
\<close>

theorem paste_position:
  assumes "files w ip = Some (Raster img)"
    and "add_transparent_padding K ip op c w = (Inr u, w')"
  shows "\<exists>ns rz out.
     new_size (width img) (height img) c = Inr ns \<and>
     resize K img (ns, ns) = Inr rz \<and>
     files w' op = Some (Raster out) \<and>
     offset (width img) ns = \<lfloor>(of_int (width img) - of_int ns) / (2 :: rat)\<rfloor> \<and>
     paste (Image_new (width img, height img) (0, 0, 0, 0)) rz
       (offset (width img) ns, offset (width img) ns) rz = Inr out"
proof -
  from atp_Inr_img [OF assms] obtain ns rz out where
    n: "new_size (width img) (height img) c = Inr ns"
    and r: "resize K img (ns, ns) = Inr rz"
    and p: "paste (Image_new (width img, height img) (0, 0, 0, 0)) rz
              (offset (width img) ns, offset (width img) ns) rz = Inr out"
    and f: "files w' op = Some (Raster out)"
    by blast
  have "offset (width img) ns = \<lfloor>(of_int (width img) - of_int ns) / (2 :: rat)\<rfloor>"
    using floor_divide_of_int_eq [of "width img - ns" 2, where ?'a = rat]
    by (simp add: offset_def)
  with n r p f show ?thesis by blast
qed

theorem paste_position_witness:
  "files sample_world ''icon.png'' = Some (Raster sample_icon)
   \<and> fst (add_transparent_padding nearest ''icon.png'' ''out.png'' (Fin (1 / 2)) sample_world) = Inr ()
   \<and> (\<exists>rz out. resize nearest sample_icon (2, 2) = Inr rz
          \<and> files (snd (add_transparent_padding nearest ''icon.png'' ''out.png'' (Fin (1 / 2))
                          sample_world)) ''out.png'' = Some (Raster out)
          \<and> offset 4 2 = 1
          \<and> paste (Image_new (4, 4) (0, 0, 0, 0)) rz (1, 1) rz = Inr out)"
proof -
  let ?r = "add_transparent_padding nearest ''icon.png'' ''out.png'' (Fin (1 / 2)) sample_world"
  have f: "files sample_world ''icon.png'' = Some (Raster sample_icon)"
    by (simp add: sample_world_def)
  have r: "?r = (Inr (), snd ?r)"
    using sample_run [of nearest] by (simp add: prod_eq_iff)
  have o: "offset 4 2 = 1"
    by (simp add: offset_def)
  have w: "width sample_icon = 4" "height sample_icon = 4"
    by (simp_all add: sample_icon_def)
  from paste_position [OF f r] f sample_run [of nearest] show ?thesis
    by (auto simp: w new_size_sample o)
qed

text \<open>
  C5. The paste takes its mask from the resized image itself: whenever a run raises
  nothing, every written pixel inside the pasted box is the blend of the transparent
  canvas with the resized pixel under that pixel's own alpha, and wherever the resized
  pixel is fully transparent the written pixel is still the transparent canvas.
\<close>

theorem paste_masked_by_own_alpha:
  assumes "files w ip = Some (Raster img)"
    and "add_transparent_padding K ip op c w = (Inr u, w')"
  shows "\<exists>ns rz out.
     new_size (width img) (height img) c = Inr ns \<and>
     resize K img (ns, ns) = Inr rz \<and>
     files w' op = Some (Raster out) \<and>
     (\<forall>i j. 0 \<le> i \<and> i < ns \<and> 0 \<le> j \<and> j < ns \<longrightarrow>
        (0 \<le> offset (width img) ns + i \<and> offset (width img) ns + i < width out \<and>
         0 \<le> offset (width img) ns + j \<and> offset (width img) ns + j < height out \<longrightarrow>
           pix out (offset (width img) ns + i) (offset (width img) ns + j) =
             blend_pixel (alpha_of (pix rz i j)) (0, 0, 0, 0) (pix rz i j)) \<and>
        (alpha_of (pix rz i j) = 0 \<longrightarrow>
           pix out (offset (width img) ns + i) (offset (width img) ns + j) = (0, 0, 0, 0)))"
proof -
  from atp_Inr_img [OF assms] obtain ns rz out where
    n: "new_size (width img) (height img) c = Inr ns"
    and r: "resize K img (ns, ns) = Inr rz"
    and s: "width rz = ns" "height rz = ns"
    and p: "paste (Image_new (width img, height img) (0, 0, 0, 0)) rz
              (offset (width img) ns, offset (width img) ns) rz = Inr out"
    and f: "files w' op = Some (Raster out)"
    by blast
  note d = paste_canvas(1,2) [OF p]
  have "pix out (offset (width img) ns + i) (offset (width img) ns + j) =
          blend_pixel (alpha_of (pix rz i j)) (0, 0, 0, 0) (pix rz i j)"
    if "0 \<le> i \<and> i < ns \<and> 0 \<le> j \<and> j < ns"
      and "0 \<le> offset (width img) ns + i \<and> offset (width img) ns + i < width out \<and>
           0 \<le> offset (width img) ns + j \<and> offset (width img) ns + j < height out" for i j
    using that by (simp add: paste_canvas(3) [OF p] s d)
  moreover have "pix out (offset (width img) ns + i) (offset (width img) ns + j) = (0, 0, 0, 0)"
    if "alpha_of (pix rz i j) = 0" for i j
    using that by (simp add: paste_canvas(3) [OF p] blend_pixel_0)
  ultimately show ?thesis using n r f by blast
qed

theorem paste_masked_by_own_alpha_witness:
  "files sample_world ''icon.png'' = Some (Raster sample_icon)
   \<and> fst (add_transparent_padding nearest ''icon.png'' ''out.png'' (Fin (1 / 2)) sample_world) = Inr ()
   \<and> (\<exists>rz out. resize nearest sample_icon (2, 2) = Inr rz
          \<and> files (snd (add_transparent_padding nearest ''icon.png'' ''out.png'' (Fin (1 / 2))
                          sample_world)) ''out.png'' = Some (Raster out)
          \<and> alpha_of (pix rz 0 0) = 0 \<and> pix out 1 1 = (0, 0, 0, 0)
          \<and> pix rz 1 0 = (255, 0, 0, 255) \<and> pix out 2 1 = (255, 0, 0, 255))"
proof -
  let ?r = "add_transparent_padding nearest ''icon.png'' ''out.png'' (Fin (1 / 2)) sample_world"
  let ?rz = "\<lparr>width = 2, height = 2, pix = nearest sample_icon (2, 2)\<rparr>"
  have f: "files sample_world ''icon.png'' = Some (Raster sample_icon)"
    by (simp add: sample_world_def)
  have r: "?r = (Inr (), snd ?r)"
    using sample_run [of nearest] by (simp add: prod_eq_iff)
  have o: "offset 4 2 = 1"
    by (simp add: offset_def)
  have w: "width sample_icon = 4" "height sample_icon = 4"
    by (simp_all add: sample_icon_def)
  have z: "nearest sample_icon (2, 2) 0 0 = (0, 0, 0, 0)"
    "nearest sample_icon (2, 2) 1 0 = (255, 0, 0, 255)"
    by (simp_all add: nearest_def sample_icon_def)
  from paste_masked_by_own_alpha [OF f r] obtain out where
    out: "files (snd ?r) ''out.png'' = Some (Raster out)"
    and m: "\<And>i j. 0 \<le> i \<and> i < 2 \<and> 0 \<le> j \<and> j < 2 \<Longrightarrow>
        (0 \<le> 1 + i \<and> 1 + i < width out \<and> 0 \<le> 1 + j \<and> 1 + j < height out \<longrightarrow>
           pix out (1 + i) (1 + j) = blend_pixel (alpha_of (pix ?rz i j)) (0, 0, 0, 0) (pix ?rz i j)) \<and>
        (alpha_of (pix ?rz i j) = 0 \<longrightarrow> pix out (1 + i) (1 + j) = (0, 0, 0, 0))"
    by (auto simp: w new_size_sample o resize_sample)
  from atp_Inr_img [OF f r] out have d: "width out = 4" "height out = 4"
    by (auto simp: w new_size_sample dest: paste_canvas(1,2))
  from m [of 0 0] have 1: "pix out 1 1 = (0, 0, 0, 0)"
    by (simp add: z)
  from m [of 1 0] have 2: "pix out 2 1 = (255, 0, 0, 255)"
    by (simp add: z d BLEND8_255)
  from f sample_run [of nearest] out 1 2 z show ?thesis
    by (simp add: resize_sample)
qed

text \<open>
  C6. The 1024 by 1024 fully opaque red square with the default \<open>content_percent\<close>:
  \<open>new_size\<close> is 901 and \<open>offset\<close> is 61, the run raises nothing, and the written image
  is 1024 by 1024 with opaque red exactly on \<open>[61, 962) \<times> [61, 962)\<close> and alpha 0 on every
  other pixel. The resampling filter is the library's; what is used of it is that it
  turns the uniformly opaque red square into uniformly opaque red.
\<close>

theorem red_square_example:
  assumes "files w ip = Some (Raster red_square)"
    and "op \<notin> unwritable w"
    and "\<forall>x y. 0 \<le> x \<and> x < 901 \<and> 0 \<le> y \<and> y < 901 \<longrightarrow>
           K red_square (901, 901) x y = (255, 0, 0, 255)"
  shows "new_size 1024 1024 default_content_percent = Inr 901
    \<and> offset 1024 901 = 61
    \<and> fst (add_transparent_padding K ip op default_content_percent w) = Inr ()
    \<and> fst (main K [prog, ip, op] w) = Exit 0
    \<and> snd (main K [prog, ip, op] w) = snd (add_transparent_padding K ip op default_content_percent w)
    \<and> (\<exists>out. files (snd (add_transparent_padding K ip op default_content_percent w)) op
                = Some (Raster out)
          \<and> width out = 1024 \<and> height out = 1024
          \<and> (\<forall>x y. 0 \<le> x \<and> x < 1024 \<and> 0 \<le> y \<and> y < 1024 \<longrightarrow>
                (if 61 \<le> x \<and> x < 962 \<and> 61 \<le> y \<and> y < 962
                 then pix out x y = (255, 0, 0, 255)
                 else alpha_of (pix out x y) = 0)))"
proof -
  let ?r = "add_transparent_padding K ip op default_content_percent w"
  have d: "width red_square = 1024" "height red_square = 1024"
    by (simp_all add: red_square_def)
  have off: "offset 1024 901 = 61"
    by (simp add: offset_def)
  from assms(1) have o: "Image_open w ip = Inr red_square"
    by (simp add: Image_open_Inr d)
  have ok: "fst ?r = Inr ()"
    unfolding add_transparent_padding_def o
    by (simp add: d new_size_default_1024 resize_red_square percent_default paste_def save_def
          assms(2) Let_def del: float_mul.simps py_int.simps)
  then have r: "?r = (Inr (), snd ?r)"
    by (simp add: prod_eq_iff)
  obtain a b where ab: "?r = (a, b)"
    by (cases ?r)
  with ok have m: "main K [prog, ip, op] w = (Exit 0, snd ?r)"
    by (simp add: main_def Let_def)
  from atp_Inr_img [OF assms(1) r] obtain out where
    p: "paste (Image_new (1024, 1024) (0, 0, 0, 0))
          \<lparr>width = 901, height = 901, pix = K red_square (901, 901)\<rparr> (61, 61)
          \<lparr>width = 901, height = 901, pix = K red_square (901, 901)\<rparr> = Inr out"
    and f: "files (snd ?r) op = Some (Raster out)"
    by (auto simp: d new_size_default_1024 resize_red_square off)
  have red: "pix out x y = (255, 0, 0, 255)"
    if "61 \<le> x \<and> x < 962 \<and> 61 \<le> y \<and> y < 962" for x y
  proof -
    from that assms(3) have "K red_square (901, 901) (x - 61) (y - 61) = (255, 0, 0, 255)"
      by simp
    with that show ?thesis
      by (simp add: paste_canvas(3) [OF p] BLEND8_255)
  qed
  have clear: "alpha_of (pix out x y) = 0"
    if "\<not> (61 \<le> x \<and> x < 962 \<and> 61 \<le> y \<and> y < 962)" for x y
    using that by (auto simp: paste_canvas(3) [OF p])
  from red clear have "\<forall>x y. 0 \<le> x \<and> x < 1024 \<and> 0 \<le> y \<and> y < 1024 \<longrightarrow>
                (if 61 \<le> x \<and> x < 962 \<and> 61 \<le> y \<and> y < 962
                 then pix out x y = (255, 0, 0, 255)
                 else alpha_of (pix out x y) = 0)"
    by simp
  with new_size_default_1024 off ok m f paste_canvas(1,2) [OF p] show ?thesis
    by simp
qed

theorem red_square_example_witness:
  "files red_world ''icon.png'' = Some (Raster red_square)
   \<and> ''out.png'' \<notin> unwritable red_world
   \<and> nearest red_square (901, 901) 0 0 = (255, 0, 0, 255)
   \<and> nearest red_square (901, 901) 900 900 = (255, 0, 0, 255)
   \<and> new_size 1024 1024 default_content_percent = Inr 901
   \<and> offset 1024 901 = 61
   \<and> fst (main nearest [''add-icon-padding.py'', ''icon.png'', ''out.png''] red_world) = Exit 0
   \<and> (\<exists>out. files (snd (main nearest [''add-icon-padding.py'', ''icon.png'', ''out.png''] red_world))
                ''out.png'' = Some (Raster out)
          \<and> width out = 1024 \<and> height out = 1024
          \<and> pix out 61 61 = (255, 0, 0, 255) \<and> pix out 961 961 = (255, 0, 0, 255)
          \<and> pix out 500 61 = (255, 0, 0, 255)
          \<and> alpha_of (pix out 60 61) = 0 \<and> alpha_of (pix out 61 60) = 0
          \<and> alpha_of (pix out 962 500) = 0 \<and> alpha_of (pix out 0 0) = 0
          \<and> alpha_of (pix out 1023 1023) = 0)"
proof -
  let ?m = "main nearest [''add-icon-padding.py'', ''icon.png'', ''out.png''] red_world"
  have f: "files red_world ''icon.png'' = Some (Raster red_square)"
    by (simp add: red_world_def)
  have u: "''out.png'' \<notin> unwritable red_world"
    by (simp add: red_world_def)
  have k: "\<forall>x y. 0 \<le> x \<and> x < 901 \<and> 0 \<le> y \<and> y < 901 \<longrightarrow>
             nearest red_square (901, 901) x y = (255, 0, 0, 255)"
    by (simp add: nearest_def red_square_def)
  from red_square_example [where K = nearest and prog = "''add-icon-padding.py''", OF f u k]
  obtain out where
    e: "fst ?m = Exit 0"
    and o: "files (snd ?m) ''out.png'' = Some (Raster out)" "width out = 1024" "height out = 1024"
    and p: "\<And>x y. 0 \<le> x \<and> x < 1024 \<and> 0 \<le> y \<and> y < 1024 \<Longrightarrow>
                (if 61 \<le> x \<and> x < 962 \<and> 61 \<le> y \<and> y < 962
                 then pix out x y = (255, 0, 0, 255)
                 else alpha_of (pix out x y) = 0)"
    by auto
  have "pix out 61 61 = (255, 0, 0, 255)" "pix out 961 961 = (255, 0, 0, 255)"
    "pix out 500 61 = (255, 0, 0, 255)"
    "alpha_of (pix out 60 61) = 0" "alpha_of (pix out 61 60) = 0"
    "alpha_of (pix out 962 500) = 0" "alpha_of (pix out 0 0) = 0"
    "alpha_of (pix out 1023 1023) = 0"
    using p [of 61 61] p [of 961 961] p [of 500 61] p [of 60 61] p [of 61 60] p [of 962 500]
      p [of 0 0] p [of 1023 1023]
    by simp_all
  with f u k e o new_size_default_1024 show ?thesis
    by (simp add: offset_def)
qed

subsection \<open>The content size\<close>




subsection \<open>Determinism\<close>

text \<open>
  C7. The result depends on the input image, the output path and \<open>content_percent\<close>
  only: in two worlds that hold the same file at the input path (and agree on whether
  the output path can be written) the function raises the same exception or none, and
  when it raises none the images written at the output path are identical. No state is
  carried from one call to the next.
\<close>

theorem rerun_identical:
  assumes "files w1 ip = files w2 ip"
    and "op \<in> unwritable w1 \<longleftrightarrow> op \<in> unwritable w2"
  shows "fst (add_transparent_padding K ip op c w1) = fst (add_transparent_padding K ip op c w2)
    \<and> (fst (add_transparent_padding K ip op c w1) = Inr () \<longrightarrow>
         files (snd (add_transparent_padding K ip op c w1)) op =
         files (snd (add_transparent_padding K ip op c w2)) op)"
proof -
  from assms(1) have o: "Image_open w1 ip = Image_open w2 ip"
    by (simp add: Image_open_def)
  show ?thesis
    unfolding add_transparent_padding_def o
    using assms(2)
    by (auto simp: Let_def save_def split: sum.splits)
qed

theorem rerun_identical_witness:
  "files sample_world ''icon.png'' =
     files (snd (add_transparent_padding nearest ''icon.png'' ''out.png'' (Fin (1 / 2)) sample_world))
       ''icon.png''
   \<and> fst (add_transparent_padding nearest ''icon.png'' ''out.png'' (Fin (1 / 2)) sample_world) = Inr ()
   \<and> fst (add_transparent_padding nearest ''icon.png'' ''out.png'' (Fin (1 / 2))
            (snd (add_transparent_padding nearest ''icon.png'' ''out.png'' (Fin (1 / 2))
                    sample_world))) = Inr ()
   \<and> files (snd (add_transparent_padding nearest ''icon.png'' ''out.png'' (Fin (1 / 2))
                    (snd (add_transparent_padding nearest ''icon.png'' ''out.png'' (Fin (1 / 2))
                            sample_world)))) ''out.png'' =
       files (snd (add_transparent_padding nearest ''icon.png'' ''out.png'' (Fin (1 / 2))
                     sample_world)) ''out.png''"
proof -
  let ?r = "add_transparent_padding nearest ''icon.png'' ''out.png'' (Fin (1 / 2)) sample_world"
  have r: "?r = (Inr (), snd ?r)"
    using sample_run [of nearest] by (simp add: prod_eq_iff)
  from atp_Inr [OF r] obtain out where
    f: "files (snd ?r) = (files sample_world)(''out.png'' \<mapsto> Raster out)"
    by blast
  have 1: "files sample_world ''icon.png'' = files (snd ?r) ''icon.png''"
    by (simp add: f)
  have u: "unwritable (snd ?r) = unwritable sample_world"
    by (rule atp_unwritable)
  have 2: "''out.png'' \<in> unwritable sample_world \<longleftrightarrow> ''out.png'' \<in> unwritable (snd ?r)"
    by (simp add: u)
  from rerun_identical [OF 1 2, of nearest "Fin (1 / 2)"] 1 sample_run [of nearest]
  show ?thesis by simp
qed

subsection \<open>The command line and failures\<close>

text \<open>
  C8. With fewer than two positional arguments (\<open>sys.argv\<close> shorter than 3) the program
  prints the two usage lines and exits with status 1; no file is created or changed.
\<close>

theorem usage_error:
  assumes "length argv < 3"
  shows "fst (main K argv w) = Exit 1
    \<and> exit_status (fst (main K argv w)) \<noteq> 0
    \<and> stdout (snd (main K argv w)) = stdout w @ usage_lines
    \<and> files (snd (main K argv w)) = files w"
  using assms by (simp add: main_def print_def usage_lines_def)

theorem usage_error_witness:
  "length [''add-icon-padding.py'', ''icon.png''] < 3
   \<and> fst (main nearest [''add-icon-padding.py'', ''icon.png''] sample_world) = Exit 1
   \<and> stdout (snd (main nearest [''add-icon-padding.py'', ''icon.png''] sample_world)) =
       [''Usage: python3 add-icon-padding.py input.png output.png [content_percent]'',
        ''Example: python3 add-icon-padding.py icon.png icon-padded.png 0.88'']
   \<and> files (snd (main nearest [''add-icon-padding.py'', ''icon.png''] sample_world))
         ''icon-padded.png'' = None"
proof -
  have l: "length [''add-icon-padding.py'', ''icon.png''] < 3" by simp
  from usage_error [OF l, of nearest sample_world] l show ?thesis
    by (simp add: sample_world_def usage_lines_def)
qed

text \<open>
  C9. When the input opens and the computed \<open>new_size\<close> is zero or negative, the resize
  raises instead of returning: \<^verbatim>\<open>ValueError\<close> (``height and width must be > 0''), or
  \<^verbatim>\<open>OverflowError\<close> when the size does not even fit the C \<^verbatim>\<open>int\<close> the library
  takes it in. The function passes the exception on, the program ends with it uncaught,
  and no file is written.
\<close>

theorem nonpositive_size_fails:
  assumes "Image_open w ip = Inr img"
    and "new_size (width img) (height img) c = Inr ns"
    and "ns \<le> 0"
    and "2 < length argv" and "argv ! 1 = ip" and "argv ! 2 = op"
    and "(if 3 < length argv then py_float (argv ! 3) else Inr default_content_percent) = Inr c"
  shows "\<exists>e. resize K img (ns, ns) = Inl e
    \<and> e = (if ns < - (2 ^ 31) then OverflowError else ValueError)
    \<and> fst (add_transparent_padding K ip op c w) = Inl e
    \<and> files (snd (add_transparent_padding K ip op c w)) = files w
    \<and> fst (main K argv w) = Uncaught e
    \<and> files (snd (main K argv w)) = files w"
proof -
  let ?e = "if ns < - (2 ^ 31) then OverflowError else ValueError"
  from assms(1) have "1 \<le> width img" by (simp add: Image_open_Inr)
  with assms(3) have r: "resize K img (ns, ns) = Inl ?e"
    by (auto simp: resize_def c_int_def)
  have a: "add_transparent_padding K ip op c w =
             (Inl ?e, print (msg_original (width img) (height img)) w)"
    unfolding add_transparent_padding_def by (simp add: assms(1,2) r Let_def)
  have m: "main K argv w = (Uncaught ?e, print (msg_original (width img) (height img)) w)"
    using assms(4-7) unfolding main_def by (simp add: a Let_def split: if_splits)
  from r a m show ?thesis by simp
qed

theorem nonpositive_size_fails_witness:
  "Image_open sample_world ''icon.png'' = Inr sample_icon
   \<and> new_size 4 4 (Fin (- 1 / 4)) = Inr (- 1)
   \<and> py_float ''-0.25'' = Inr (Fin (- 1 / 4))
   \<and> resize nearest sample_icon (- 1, - 1) = Inl ValueError
   \<and> fst (add_transparent_padding nearest ''icon.png'' ''out.png'' (Fin (- 1 / 4)) sample_world)
       = Inl ValueError
   \<and> fst (main nearest [''add-icon-padding.py'', ''icon.png'', ''out.png'', ''-0.25''] sample_world)
       = Uncaught ValueError
   \<and> files (snd (main nearest [''add-icon-padding.py'', ''icon.png'', ''out.png'', ''-0.25'']
                    sample_world)) ''out.png'' = None"
proof -
  let ?argv = "[''add-icon-padding.py'', ''icon.png'', ''out.png'', ''-0.25'']"
  have w: "width sample_icon = 4" "height sample_icon = 4"
    by (simp_all add: sample_icon_def)
  have n: "new_size 4 4 (Fin (- 1 / 4)) = Inr (- 1)"
    by code_simp
  have p: "py_float ''-0.25'' = Inr (Fin (- 1 / 4))"
    by code_simp
  have 1: "new_size (width sample_icon) (height sample_icon) (Fin (- 1 / 4)) = Inr (- 1)"
    by (simp only: w n)
  have 2: "(- 1 :: int) \<le> 0" by simp
  have 3: "2 < length ?argv" "?argv ! 1 = ''icon.png''" "?argv ! 2 = ''out.png''"
    by simp_all
  have 4: "(if 3 < length ?argv then py_float (?argv ! 3) else Inr default_content_percent)
             = Inr (Fin (- 1 / 4))"
    using p by simp
  from nonpositive_size_fails [OF Image_open_sample 1 2 3 4, of nearest] n p Image_open_sample
  show ?thesis
    by (simp add: sample_world_def)
qed

text \<open>
  C10. When a third positional argument is given and \<^verbatim>\<open>float\<close> rejects it, the
  conversion raises \<^verbatim>\<open>ValueError\<close>, nothing catches it, and the process ends before
  the function is called: no file is opened or written and nothing is printed.
\<close>

theorem float_argument_rejected:
  assumes "3 < length argv"
    and "py_float (argv ! 3) = Inl e"
  shows "e = ValueError \<and> main K argv w = (Uncaught ValueError, w)
    \<and> exit_status (fst (main K argv w)) = 1"
proof -
  from assms(2) have "e = ValueError"
    by (auto simp: py_float_def Let_def split: option.splits prod.splits if_splits)
  with assms show ?thesis
    by (simp add: main_def)
qed

theorem float_argument_rejected_witness:
  "3 < length [''add-icon-padding.py'', ''icon.png'', ''out.png'', ''abc'']
   \<and> py_float ''abc'' = Inl ValueError
   \<and> main nearest [''add-icon-padding.py'', ''icon.png'', ''out.png'', ''abc''] sample_world =
       (Uncaught ValueError, sample_world)
   \<and> files sample_world ''out.png'' = None"
proof -
  have l: "3 < length [''add-icon-padding.py'', ''icon.png'', ''out.png'', ''abc'']" by simp
  have p: "py_float ([''add-icon-padding.py'', ''icon.png'', ''out.png'', ''abc''] ! 3) = Inl ValueError"
    by code_simp
  from float_argument_rejected [OF l p, of nearest sample_world] l p show ?thesis
    by (simp add: sample_world_def)
qed

end
